theory Spec2Isabelle
  imports Main
begin

section \<open>Text and character classes\<close>

text \<open>
  The program is \<^verbatim>\<open>analyze_phone_pii.py\<close>. A Python string is modelled as a
  \<^typ>\<open>string\<close>; a \<^typ>\<open>char\<close> stands for the code point of the same number, so the
  texts of the model are the Python strings over U+0000 .. U+00FF. On that range the
  classes below are the ones of Python's \<^verbatim>\<open>re\<close> module for \<^verbatim>\<open>str\<close> patterns
  (\<^verbatim>\<open>\s\<close> is \<^verbatim>\<open>str.isspace\<close>, \<^verbatim>\<open>\w\<close> is \<^verbatim>\<open>str.isalnum\<close> or the
  underscore), and \<^verbatim>\<open>str.lower\<close> keeps the length of the text.
\<close>

definition code :: "char \<Rightarrow> nat" where
  "code c = of_char c"

definition is_space :: "char \<Rightarrow> bool" where
  "is_space c = (let n = code c in
     (9 \<le> n \<and> n \<le> 13) \<or> (28 \<le> n \<and> n \<le> 32) \<or> n = 133 \<or> n = 160)"

definition is_word :: "char \<Rightarrow> bool" where
  "is_word c = (let n = code c in
     (48 \<le> n \<and> n \<le> 57) \<or> (65 \<le> n \<and> n \<le> 90) \<or> n = 95 \<or> (97 \<le> n \<and> n \<le> 122) \<or>
     n = 170 \<or> n = 178 \<or> n = 179 \<or> n = 181 \<or> n = 185 \<or> n = 186 \<or>
     (188 \<le> n \<and> n \<le> 190) \<or> (192 \<le> n \<and> n \<le> 214) \<or> (216 \<le> n \<and> n \<le> 246) \<or>
     248 \<le> n)"

definition lower_char :: "char \<Rightarrow> char" where
  "lower_char c = (let n = code c in
     if (65 \<le> n \<and> n \<le> 90) \<or> (192 \<le> n \<and> n \<le> 214) \<or> (216 \<le> n \<and> n \<le> 222)
     then char_of (n + 32) else c)"

definition lower :: "string \<Rightarrow> string" where
  "lower s = map lower_char s"

section \<open>Regular expressions as the program uses them\<close>

text \<open>
  Every pattern of the program is searched with \<^verbatim>\<open>re.search(..., re.IGNORECASE)\<close>.
  The patterns are built from literal text, the classes \<^verbatim>\<open>\s\<close> and \<^verbatim>\<open>\w\<close>,
  bracket sets, the word boundary \<^verbatim>\<open>\b\<close>, a greedy \<^verbatim>\<open>?\<close>, the greedy
  repetitions \<^verbatim>\<open>*\<close> and \<^verbatim>\<open>+\<close> of a single class, capture groups and a
  back-reference. A matcher state is the text before the position (reversed), the text
  from the position on, and the groups captured so far. \<open>rmatch\<close> lists the states in
  which a match of the expression can end, in the order in which the backtracking
  matcher of \<^verbatim>\<open>re\<close> tries them; the first one is the match \<^verbatim>\<open>re\<close> reports.
\<close>

datatype citem = Ch char | Sp | Wd

datatype cset = AnyOf "citem list" | NoneOf "citem list"

datatype regex =
    Str string
  | One cset
  | Bnd
  | Seq regex regex
  | Opt regex
  | Star cset
  | Grp nat regex
  | Back nat

type_synonym caps = "(nat \<times> string) list"
type_synonym mstate = "string \<times> string \<times> caps"

fun in_item :: "char \<Rightarrow> citem \<Rightarrow> bool" where
  "in_item c (Ch d) = (lower_char c = lower_char d)"
| "in_item c Sp = is_space c"
| "in_item c Wd = is_word c"

fun in_cset :: "char \<Rightarrow> cset \<Rightarrow> bool" where
  "in_cset c (AnyOf is) = (\<exists>i \<in> set is. in_item c i)"
| "in_cset c (NoneOf is) = (\<not> (\<exists>i \<in> set is. in_item c i))"

fun word_before :: "string \<Rightarrow> bool" where
  "word_before [] = False"
| "word_before (c # _) = is_word c"

definition at_boundary :: "string \<Rightarrow> string \<Rightarrow> bool" where
  "at_boundary bef rest = (word_before bef \<noteq> word_before rest)"

fun match_text :: "string \<Rightarrow> string \<Rightarrow> string \<Rightarrow> caps \<Rightarrow> mstate list" where
  "match_text [] bef rest cs = [(bef, rest, cs)]"
| "match_text (p # w) bef [] cs = []"
| "match_text (p # w) bef (c # rest) cs =
     (if lower_char c = lower_char p then match_text w (c # bef) rest cs else [])"

fun star_states :: "cset \<Rightarrow> string \<Rightarrow> string \<Rightarrow> caps \<Rightarrow> mstate list" where
  "star_states k bef [] cs = [(bef, [], cs)]"
| "star_states k bef (c # rest) cs =
     (if in_cset c k then star_states k (c # bef) rest cs else []) @ [(bef, c # rest, cs)]"

definition set_group :: "nat \<Rightarrow> string \<Rightarrow> mstate \<Rightarrow> mstate" where
  "set_group n bef st = (case st of (bef', rest', cs') \<Rightarrow>
     (bef', rest', (n, rev (take (length bef' - length bef) bef')) # cs'))"

fun rmatch :: "regex \<Rightarrow> mstate \<Rightarrow> mstate list" where
  "rmatch (Str w) (bef, rest, cs) = match_text w bef rest cs"
| "rmatch (One k) (bef, rest, cs) =
     (case rest of [] \<Rightarrow> [] | c # rest' \<Rightarrow> if in_cset c k then [(c # bef, rest', cs)] else [])"
| "rmatch Bnd (bef, rest, cs) = (if at_boundary bef rest then [(bef, rest, cs)] else [])"
| "rmatch (Seq r1 r2) st = concat (map (rmatch r2) (rmatch r1 st))"
| "rmatch (Opt r) st = rmatch r st @ [st]"
| "rmatch (Star k) (bef, rest, cs) = star_states k bef rest cs"
| "rmatch (Grp n r) (bef, rest, cs) = map (set_group n bef) (rmatch r (bef, rest, cs))"
| "rmatch (Back n) (bef, rest, cs) =
     (case map_of cs n of None \<Rightarrow> [] | Some g \<Rightarrow> match_text g bef rest cs)"

text \<open>
  \<^verbatim>\<open>re.search\<close> tries the start positions from left to right and reports the first
  match at the first position that has one. A match is the matched text
  (\<^verbatim>\<open>group(0)\<close>) with the captured groups.
\<close>

type_synonym rematch = "string \<times> caps"

definition found :: "string \<Rightarrow> mstate \<Rightarrow> rematch" where
  "found bef st = (case st of (bef', rest', cs') \<Rightarrow>
     (rev (take (length bef' - length bef) bef'), cs'))"

fun search_at :: "regex \<Rightarrow> string \<Rightarrow> string \<Rightarrow> rematch option" where
  "search_at r bef [] =
     (case rmatch r (bef, [], []) of [] \<Rightarrow> None | st # _ \<Rightarrow> Some (found bef st))"
| "search_at r bef (c # rest) =
     (case rmatch r (bef, c # rest, []) of
        [] \<Rightarrow> search_at r (c # bef) rest
      | st # _ \<Rightarrow> Some (found bef st))"

definition re_search :: "regex \<Rightarrow> string \<Rightarrow> rematch option" where
  "re_search r s = search_at r [] s"

definition group :: "rematch \<Rightarrow> nat \<Rightarrow> string" where
  "group m n = (if n = 0 then fst m else case map_of (snd m) n of None \<Rightarrow> [] | Some g \<Rightarrow> g)"

definition seqs :: "regex list \<Rightarrow> regex" where
  "seqs rs = foldr Seq rs (Str [])"

definition plus :: "cset \<Rightarrow> regex" where
  "plus k = Seq (One k) (Star k)"

section \<open>The pattern lists\<close>

definition whole_word :: "string \<Rightarrow> regex" where
  "whole_word w = seqs [Bnd, Str w, Bnd]"

definition PHONE_PATTERNS :: "regex list" where
  "PHONE_PATTERNS =
   [ seqs [Bnd, Str ''to_contact'', Opt (seqs [Str ''_'', plus (AnyOf [Wd])]), Bnd],
     whole_word ''phone'',
     whole_word ''mobile'',
     whole_word ''cell'',
     whole_word ''tel'',
     whole_word ''contact_number'',
     whole_word ''phone_number'',
     whole_word ''handphone'',
     whole_word ''hp_number'',
     whole_word ''telephone'',
     whole_word ''telephone_number'',
     whole_word ''contact_phone'',
     whole_word ''customer_phone'',
     whole_word ''recipient_phone'',
     whole_word ''sender_phone'',
     whole_word ''phone_no'',
     whole_word ''mobile_no'',
     whole_word ''phone_num'',
     whole_word ''mobile_num'' ]"

text \<open>
  The first entry of \<^verbatim>\<open>PHONE_TABLES\<close> is the raw string \<^verbatim>\<open>\to_contact?\b\<close>:
  for \<^verbatim>\<open>re\<close> it starts with the escape \<^verbatim>\<open>\t\<close>, a tab character, followed by
  \<^verbatim>\<open>o_contac\<close> and an optional \<^verbatim>\<open>t\<close>.
\<close>

definition PHONE_TABLES :: "regex list" where
  "PHONE_TABLES =
   [ seqs [Str [CHR 0x09], Str ''o_contac'', Opt (Str ''t''), Bnd],
     seqs [Bnd, Str ''contact'', Opt (Str ''s''), Bnd],
     seqs [Bnd, Str ''addresse'', Opt (Str ''s''), Bnd],
     seqs [Bnd, Str ''recipient'', Opt (Str ''s''), Bnd],
     seqs [Bnd, Str ''sender'', Opt (Str ''s''), Bnd],
     seqs [Bnd, Str ''user_contact'', Opt (Str ''s''), Bnd],
     seqs [Bnd, Str ''customer_contact'', Opt (Str ''s''), Bnd],
     seqs [Bnd, Str ''contact_info'', Bnd] ]"

definition token_chars :: cset where
  "token_chars = NoneOf [Sp, Ch CHR '','', Ch CHR 0x60, Ch CHR 0x22]"

text \<open>
  The expression of the third check,
  \<^verbatim>\<open>\bfrom\s+([`"]?)([^\s,`"]*TABLE[^\s,`"]*)\1\<close>, with the table pattern spliced in.
  The \<^verbatim>\<open>replace\<close> applied to the table pattern looks for two backslashes in a row;
  no table pattern has them, so the pattern is spliced in unchanged.
\<close>

definition from_table :: "regex \<Rightarrow> regex" where
  "from_table table_pattern =
     seqs [Bnd, Str ''from'', plus (AnyOf [Sp]),
           Grp 1 (Opt (One (AnyOf [Ch CHR 0x60, Ch CHR 0x22]))),
           Grp 2 (seqs [Star token_chars, table_pattern, Star token_chars]),
           Back 1]"

section \<open>The values of a decoded JSON document\<close>

text \<open>
  The query handed to the classifier is whatever \<^verbatim>\<open>json.loads\<close> produced under the
  key \<^verbatim>\<open>query\<close>. A float is kept as its truth value only (\<open>False\<close> for zero),
  which is all the program reads from a number.
\<close>

datatype json =
    JNull
  | JBool bool
  | JInt int
  | JFloat bool
  | JStr string
  | JArr "json list"
  | JObj "(string \<times> json) list"

datatype exn =
    JSONDecodeError
  | KeyError
  | TypeError
  | AttributeError
  | ValueError
  | UnicodeDecodeError
  | OSError
  | CsvError

fun truthy :: "json \<Rightarrow> bool" where
  "truthy JNull = False"
| "truthy (JBool b) = b"
| "truthy (JInt i) = (i \<noteq> 0)"
| "truthy (JFloat nz) = nz"
| "truthy (JStr s) = (s \<noteq> [])"
| "truthy (JArr xs) = (xs \<noteq> [])"
| "truthy (JObj kvs) = (kvs \<noteq> [])"

section \<open>The classifier\<close>

fun first_match :: "regex list \<Rightarrow> string \<Rightarrow> rematch option" where
  "first_match [] s = None"
| "first_match (p # ps) s =
     (case re_search p s of Some m \<Rightarrow> Some m | None \<Rightarrow> first_match ps s)"

definition classify_text :: "string \<Rightarrow> string option" where
  "classify_text query_text =
     (let query_lower = lower query_text in
      if re_search (whole_word ''select'') query_lower = None then None
      else case first_match PHONE_PATTERNS query_text of
        Some m \<Rightarrow> Some (group m 0)
      | None \<Rightarrow>
          if re_search (seqs [Str ''select'', plus (AnyOf [Sp]), Str ''*'']) query_lower \<noteq> None
          then (case first_match (map from_table PHONE_TABLES) query_text of
                  Some m \<Rightarrow> Some (''SELECT * from '' @ group m 2)
                | None \<Rightarrow> None)
          else None)"

fun find_phone_pattern_in_query :: "json \<Rightarrow> exn + string option" where
  "find_phone_pattern_in_query (JStr query_text) =
     (if query_text = [] then Inr None else Inr (classify_text query_text))"
| "find_phone_pattern_in_query v =
     (if truthy v then Inl AttributeError else Inr None)"


section \<open>Rows and input files\<close>

text \<open>
  A row is the dictionary that \<^verbatim>\<open>csv.DictReader\<close> yields, with its keys in order.
  A key is a column name, or \<open>None\<close>, the key under which the reader puts the cells
  of a line that is longer than the header. A value is the text of a cell, \<open>NoCell\<close>
  (Python's \<^verbatim>\<open>None\<close>) for a cell that a short line does not have, or the list of
  the surplus cells.

  An input file is what the program can observe of it: the header that a fresh reader
  reports (\<open>None\<close> when asking for it raises, as for a file that cannot be opened or
  decoded, or for an empty file, where \<^verbatim>\<open>list(reader.fieldnames)\<close> raises), the
  rows the reader yields, and the exception that ends the reading instead of the normal
  end, if any. The directory of the program is a function from file names to files,
  \<open>None\<close> for a file that does not exist.

  \<^verbatim>\<open>json.loads\<close> is a parameter \<open>loads\<close> of the model: any function from a text to
  an exception or a decoded value. Messages on the diagnostic stream are not modelled.
\<close>

type_synonym key = "string option"

datatype cell = Text string | NoCell | Surplus "string list"

type_synonym row = "(key \<times> cell) list"

record csv_file =
  fieldnames_of :: "string list option"
  rows_of :: "row list"
  failure_of :: "exn option"

type_synonym directory = "string \<Rightarrow> csv_file option"

type_synonym loader = "string \<Rightarrow> exn + json"

definition row_get :: "row \<Rightarrow> string \<Rightarrow> cell \<Rightarrow> cell" where
  "row_get r k dflt = (case map_of r (Some k) of None \<Rightarrow> dflt | Some v \<Rightarrow> v)"

fun json_loads :: "loader \<Rightarrow> cell \<Rightarrow> exn + json" where
  "json_loads loads (Text s) = loads s"
| "json_loads loads NoCell = Inl TypeError"
| "json_loads loads (Surplus xs) = Inl TypeError"

fun json_get :: "json \<Rightarrow> string \<Rightarrow> json \<Rightarrow> exn + json" where
  "json_get (JObj kvs) k dflt = (case map_of kvs k of None \<Rightarrow> Inr dflt | Some v \<Rightarrow> Inr v)"
| "json_get v k dflt = Inl AttributeError"

text \<open>
  The body of the inner \<^verbatim>\<open>try\<close> for one row. \<open>Inr (Some p)\<close>: the row is kept with
  the matched pattern \<open>p\<close>; \<open>Inr None\<close>: the row is not kept, and the loop goes on;
  \<open>Inl e\<close>: the exception \<open>e\<close> leaves the inner \<^verbatim>\<open>try\<close>, whose handler takes
  \<^verbatim>\<open>JSONDecodeError\<close> and \<^verbatim>\<open>KeyError\<close> only.
\<close>

definition row_handler :: "exn \<Rightarrow> exn + string option" where
  "row_handler e = (if e = JSONDecodeError \<or> e = KeyError then Inr None else Inl e)"

definition process_row :: "loader \<Rightarrow> row \<Rightarrow> exn + string option" where
  "process_row loads r =
     (case json_loads loads (row_get r ''additional_properties'' (Text ''{}'')) of
        Inl e \<Rightarrow> row_handler e
      | Inr additional_props \<Rightarrow>
          (case json_get additional_props ''query'' (JStr []) of
             Inl e \<Rightarrow> row_handler e
           | Inr query_text \<Rightarrow>
               (case find_phone_pattern_in_query query_text of
                  Inl e \<Rightarrow> row_handler e
                | Inr None \<Rightarrow> Inr None
                | Inr (Some matched_pattern) \<Rightarrow>
                    if matched_pattern \<noteq> [] then Inr (Some matched_pattern) else Inr None)))"

text \<open>
  The loop over the reader, inside the outer \<^verbatim>\<open>try\<close>. The list \<open>matching_rows\<close>
  is created before the \<^verbatim>\<open>try\<close> and returned after it, so an exception ends the
  loop and leaves the list as it is. The second component is the exception that the
  outer handler caught, if any.
\<close>

fun read_loop :: "loader \<Rightarrow> row list \<Rightarrow> exn option \<Rightarrow> (row \<times> string) list \<Rightarrow>
    (row \<times> string) list \<times> exn option" where
  "read_loop loads [] failure matching_rows = (matching_rows, failure)"
| "read_loop loads (r # rs) failure matching_rows =
     (case process_row loads r of
        Inl e \<Rightarrow> (matching_rows, Some e)
      | Inr None \<Rightarrow> read_loop loads rs failure matching_rows
      | Inr (Some matched_pattern) \<Rightarrow>
          read_loop loads rs failure (matching_rows @ [(r, matched_pattern)]))"

definition process_csv_file :: "loader \<Rightarrow> csv_file \<Rightarrow> (row \<times> string) list \<times> exn option" where
  "process_csv_file loads f = read_loop loads (rows_of f) (failure_of f) []"

section \<open>The consolidation\<close>

definition csv_files :: "string list" where
  "csv_files =
   [ ''execute_query_05.csv'', ''execute_query_06.csv'', ''execute_query_07.csv'',
     ''query_results_05.csv'', ''query_results_06.csv'', ''query_results_07.csv'' ]"

definition mpp :: key where
  "mpp = Some ''matched_phone_pattern''"

text \<open>Assignment to a key of a dictionary: in place when the key is there, at the end otherwise.\<close>

fun setitem :: "row \<Rightarrow> key \<Rightarrow> cell \<Rightarrow> row" where
  "setitem [] k v = [(k, v)]"
| "setitem ((k', v') # r) k v = (if k' = k then (k, v) # r else (k', v') # setitem r k v)"

definition add_pattern :: "row \<times> string \<Rightarrow> row" where
  "add_pattern rp = (case rp of (r, pattern) \<Rightarrow> setitem r mpp (Text pattern))"

record state =
  all_matching_rows :: "row list"
  fieldnames :: "key list option"

definition init_state :: state where
  "init_state = \<lparr> all_matching_rows = [], fieldnames = None \<rparr>"

fun main_loop :: "loader \<Rightarrow> directory \<Rightarrow> string list \<Rightarrow> state \<Rightarrow> state" where
  "main_loop loads dir [] s = s"
| "main_loop loads dir (csv_file # rest) s =
     (case dir csv_file of
        None \<Rightarrow> main_loop loads dir rest s
      | Some f \<Rightarrow>
          (case fst (process_csv_file loads f) of
             [] \<Rightarrow> main_loop loads dir rest s
           | (r0, p0) # others \<Rightarrow>
               main_loop loads dir rest
                 \<lparr> all_matching_rows =
                     all_matching_rows s @ map add_pattern ((r0, p0) # others),
                   fieldnames =
                     (case fieldnames s of
                        None \<Rightarrow> Some (map fst r0 @ [mpp])
                      | Some names \<Rightarrow> Some names) \<rparr>))"

text \<open>
  What one file name contributes to the consolidated rows: nothing when the file does not
  exist, otherwise its kept rows, each with the matched pattern stored in it.
\<close>

definition kept :: "loader \<Rightarrow> directory \<Rightarrow> string \<Rightarrow> row list" where
  "kept loads dir name =
     (case dir name of None \<Rightarrow> [] | Some f \<Rightarrow> map add_pattern (fst (process_csv_file loads f)))"

text \<open>
  The search for a header when nothing matched: the first existing file whose header
  can be read gives it; a file whose header cannot be read is passed over.
\<close>

fun header_fallback :: "directory \<Rightarrow> string list \<Rightarrow> key list option" where
  "header_fallback dir [] = None"
| "header_fallback dir (csv_file # rest) =
     (case dir csv_file of
        None \<Rightarrow> header_fallback dir rest
      | Some f \<Rightarrow>
          (case fieldnames_of f of
             None \<Rightarrow> header_fallback dir rest
           | Some names \<Rightarrow> Some (map Some names @ [mpp])))"

text \<open>
  \<^verbatim>\<open>csv.DictWriter\<close> with its defaults: a row with a key outside the field names
  raises \<^verbatim>\<open>ValueError\<close>, a field name that the row does not have is written as the
  empty text. The written file is modelled by the records handed to the underlying
  \<^verbatim>\<open>csv.writer\<close>, the header first; the encoding of a record as a line of text is
  the writer's.
\<close>

fun key_cell :: "key \<Rightarrow> cell" where
  "key_cell (Some name) = Text name"
| "key_cell None = NoCell"

definition rec_of :: "key list \<Rightarrow> row \<Rightarrow> cell list" where
  "rec_of names rowdict =
     map (\<lambda>k. case map_of rowdict k of None \<Rightarrow> Text [] | Some v \<Rightarrow> v) names"

definition dict_to_list :: "key list \<Rightarrow> row \<Rightarrow> exn + cell list" where
  "dict_to_list names rowdict =
     (if \<exists>k \<in> set (map fst rowdict). k \<notin> set names then Inl ValueError
      else Inr (rec_of names rowdict))"

fun writerows :: "key list \<Rightarrow> row list \<Rightarrow> cell list list \<times> exn option" where
  "writerows names [] = ([], None)"
| "writerows names (rowdict # rowdicts) =
     (case dict_to_list names rowdict of
        Inl e \<Rightarrow> ([], Some e)
      | Inr rec \<Rightarrow>
          (case writerows names rowdicts of (recs, e) \<Rightarrow> (rec # recs, e)))"

datatype content = Records "cell list list" | Raw string

record outcome =
  written :: content
  uncaught :: "exn option"

definition default_header :: string where
  "default_header =
     ''id,org_id,user_id,action,object_type,object_id,additional_properties,created_at,matched_phone_pattern''
     @ [CHR 0x0A]"

fun names_truthy :: "key list option \<Rightarrow> bool" where
  "names_truthy None = False"
| "names_truthy (Some names) = (names \<noteq> [])"

definition write_output :: "directory \<Rightarrow> string list \<Rightarrow> state \<Rightarrow> outcome" where
  "write_output dir files s =
     (if all_matching_rows s = [] then
        (let names = (if \<not> names_truthy (fieldnames s) then header_fallback dir files
                      else fieldnames s) in
         case names of
           None \<Rightarrow> \<lparr> written = Raw default_header, uncaught = None \<rparr>
         | Some ns \<Rightarrow>
             if ns \<noteq> [] then \<lparr> written = Records [map key_cell ns], uncaught = None \<rparr>
             else \<lparr> written = Raw default_header, uncaught = None \<rparr>)
      else
        (case fieldnames s of
           None \<Rightarrow> \<lparr> written = Records [], uncaught = Some TypeError \<rparr>
         | Some names \<Rightarrow>
             (case writerows names (all_matching_rows s) of
                (recs, e) \<Rightarrow> \<lparr> written = Records (map key_cell names # recs), uncaught = e \<rparr>)))"

definition consolidate :: "loader \<Rightarrow> directory \<Rightarrow> string list \<Rightarrow> outcome" where
  "consolidate loads dir files = write_output dir files (main_loop loads dir files init_state)"

definition main :: "loader \<Rightarrow> directory \<Rightarrow> outcome" where
  "main loads dir = consolidate loads dir csv_files"

text \<open>
  The words of the specification for one file: the rows read before the first exception
  that the row handler does not take, those of them whose query matched, in the order of
  the file, each with its match.
\<close>

definition kept_pair :: "loader \<Rightarrow> row \<Rightarrow> (row \<times> string) option" where
  "kept_pair loads r = (case process_row loads r of Inr (Some p) \<Rightarrow> Some (r, p) | _ \<Rightarrow> None)"

definition matches_of :: "loader \<Rightarrow> row list \<Rightarrow> (row \<times> string) list" where
  "matches_of loads rs =
     List.map_filter (kept_pair loads) (takeWhile (\<lambda>r. \<not> isl (process_row loads r)) rs)"

definition consolidated :: "loader \<Rightarrow> directory \<Rightarrow> string list \<Rightarrow> row list" where
  "consolidated loads dir files = concat (map (kept loads dir) files)"

definition no_header :: "directory \<Rightarrow> string \<Rightarrow> bool" where
  "no_header dir name = (case dir name of None \<Rightarrow> True | Some f \<Rightarrow> fieldnames_of f = None)"

section \<open>Example inputs\<close>

text \<open>
  The loader of the examples decodes the few texts that the examples use as
  \<^verbatim>\<open>json.loads\<close> does; it is not applied to any other well-formed text.
\<close>

definition json_phone :: string where
  \<open>json_phone = ''{"query": "select phone from t"}''\<close>

definition json_plain :: string where
  \<open>json_plain = ''{"query": "select name from employees"}''\<close>

definition json_user :: string where
  \<open>json_user = ''{"user": 7}''\<close>

definition ex_loads :: loader where
  "ex_loads s =
     (if s = ''{}'' then Inr (JObj [])
      else if s = json_phone then Inr (JObj [(''query'', JStr ''select phone from t'')])
      else if s = json_plain then Inr (JObj [(''query'', JStr ''select name from employees'')])
      else if s = json_user then Inr (JObj [(''user'', JInt 7)])
      else if s = ''5'' then Inr (JInt 5)
      else Inl JSONDecodeError)"

definition row_phone :: row where
  "row_phone = [(Some ''id'', Text ''1''), (Some ''additional_properties'', Text json_phone)]"

definition row_plain :: row where
  "row_plain = [(Some ''id'', Text ''2''), (Some ''additional_properties'', Text json_plain)]"

definition row_five :: row where
  "row_five = [(Some ''id'', Text ''3''), (Some ''additional_properties'', Text ''5'')]"




definition row_late :: row where
  "row_late = [(Some ''id'', Text ''7''), (Some ''additional_properties'', Text json_phone)]"

definition row_wide :: row where
  "row_wide = [(Some ''id'', Text ''8''), (Some ''org_id'', Text ''1''),
               (Some ''additional_properties'', Text json_phone)]"

definition file_cut :: csv_file where
  "file_cut = \<lparr> fieldnames_of = Some [''id'', ''additional_properties''],
                rows_of = [row_phone], failure_of = Some UnicodeDecodeError \<rparr>"

definition file_late :: csv_file where
  "file_late = \<lparr> fieldnames_of = Some [''id'', ''additional_properties''],
                 rows_of = [row_plain, row_late], failure_of = None \<rparr>"

definition file_five :: csv_file where
  "file_five = \<lparr> fieldnames_of = Some [''id'', ''additional_properties''],
                 rows_of = [row_phone, row_five, row_late], failure_of = None \<rparr>"




definition file_plain :: csv_file where
  "file_plain = \<lparr> fieldnames_of = Some [''id'', ''additional_properties''],
                  rows_of = [row_plain], failure_of = None \<rparr>"

definition file_wide :: csv_file where
  "file_wide = \<lparr> fieldnames_of = Some [''id'', ''org_id'', ''additional_properties''],
                 rows_of = [row_wide], failure_of = None \<rparr>"

definition file_empty :: csv_file where
  "file_empty = \<lparr> fieldnames_of = None, rows_of = [], failure_of = None \<rparr>"

definition dir_cut :: directory where
  "dir_cut = (\<lambda>name. None)
     (''execute_query_05.csv'' := Some file_cut, ''execute_query_06.csv'' := Some file_late)"

definition dir_five :: directory where
  "dir_five = (\<lambda>name. None)(''execute_query_06.csv'' := Some file_five)"

definition dir_second :: directory where
  "dir_second = (\<lambda>name. None)
     (''execute_query_05.csv'' := Some file_plain, ''execute_query_06.csv'' := Some file_wide,
      ''execute_query_07.csv'' := Some file_plain)"

definition dir_empty_first :: directory where
  "dir_empty_first = (\<lambda>name. None)
     (''execute_query_05.csv'' := Some file_empty, ''execute_query_06.csv'' := Some file_plain)"



section \<open>Evaluating the character classes\<close>


lemma is_space_Char [code]:
  "is_space (Char b0 b1 b2 b3 b4 b5 b6 b7) =
     (if b6 then False
      else if b5 then \<not> b4 \<and> \<not> b3 \<and> \<not> b2 \<and> \<not> b1 \<and> \<not> b0
      else if b7 then \<not> b4 \<and> \<not> b3 \<and> b2 \<and> \<not> b1 \<and> b0
      else if b4 then b3 \<and> b2
      else b3 \<and> (if b2 then \<not> b1 else b1 \<or> b0))"
  apply (cases b0; cases b1; cases b2; cases b3; cases b4; cases b5; cases b6; cases b7)
  apply (simp_all add: is_space_def code_def Let_def)
  done


section \<open>Properties of the matcher\<close>

























section \<open>The classifier: claims\<close>





text \<open>
  Claim C3, at an input where the code departs from it. The first table pattern starts
  with a tab character instead of a word boundary, so it matches across the white space
  after a token: for the text \<^verbatim>\<open>select * from a<TAB>o_contact\<close> the extracted
  piece is \<^verbatim>\<open>a<TAB>o_contact\<close>, which contains white space and so is not a
  token bounded by white space.
\<close>

theorem tab_table_pattern:
  "is_space (CHR 0x09) \<and>
   find_phone_pattern_in_query (JStr (''select * from a'' @ [CHR 0x09] @ ''o_contact'')) =
     Inr (Some (''SELECT * from a'' @ [CHR 0x09] @ ''o_contact''))"
  by code_simp

text \<open>
  The two examples of the fallback in the specification: a table pattern inside the
  token after \<^verbatim>\<open>from\<close>, and a text with neither a column pattern nor
  \<^verbatim>\<open>select *\<close>.
\<close>

lemma table_fallback_examples:
  "find_phone_pattern_in_query (JStr ''select * from contacts'') =
     Inr (Some ''SELECT * from contacts'') \<and>
   find_phone_pattern_in_query (JStr ''select name from employees'') = Inr None"
  by code_simp

section \<open>Properties of the reading loop and of the consolidation\<close>

lemma read_loop_matches:
  "fst (read_loop loads rs failure acc) = acc @ matches_of loads rs"
proof (induction rs arbitrary: acc)
  case Nil
  show ?case by (simp add: matches_of_def map_filter_simps)
next
  case (Cons r rs)
  show ?case
  proof (cases "process_row loads r")
    case (Inl e)
    then show ?thesis by (simp add: matches_of_def map_filter_simps)
  next
    case (Inr v)
    show ?thesis
    proof (cases v)
      case None
      with Inr Cons.IH [of acc] show ?thesis
        by (simp add: matches_of_def map_filter_simps kept_pair_def)
    next
      case (Some p)
      with Inr Cons.IH [of "acc @ [(r, p)]"] show ?thesis
        by (simp add: matches_of_def map_filter_simps kept_pair_def)
    qed
  qed
qed

lemma read_loop_raised:
  "failure \<noteq> None \<Longrightarrow> snd (read_loop loads rs failure acc) \<noteq> None"
  by (induction rs arbitrary: acc) (simp_all split: sum.splits option.splits)


lemma read_loop_abort_snd:
  "process_row loads r = Inl e \<Longrightarrow>
     snd (read_loop loads (pre @ r # post) failure acc) \<noteq> None \<and>
     ((\<forall>x \<in> set pre. \<not> isl (process_row loads x)) \<longrightarrow>
        snd (read_loop loads (pre @ r # post) failure acc) = Some e)"
  by (induction pre arbitrary: acc) (auto split: sum.splits option.splits)

lemma matches_of_abort:
  "process_row loads r = Inl e \<Longrightarrow> matches_of loads (pre @ r # post) = matches_of loads pre"
  by (induction pre) (simp_all add: matches_of_def split: option.splits)



lemma process_row_not_object:
  assumes "row_get r ''additional_properties'' (Text ''{}'') = Text t" "loads t = Inr v"
    "\<forall>kvs. v \<noteq> JObj kvs"
  shows "process_row loads r = Inl AttributeError"
  using assms by (cases v) (simp_all add: process_row_def row_handler_def)

lemma process_csv_file_fst: "fst (process_csv_file loads f) = matches_of loads (rows_of f)"
  using read_loop_matches [of loads "rows_of f" "failure_of f" "[]"]
  by (simp add: process_csv_file_def)

lemma kept_Some: "dir name = Some f \<Longrightarrow> kept loads dir name = map add_pattern (matches_of loads (rows_of f))"
  by (simp add: kept_def process_csv_file_fst)

lemma kept_None: "dir name = None \<Longrightarrow> kept loads dir name = []"
  by (simp add: kept_def)

lemma main_loop_rows:
  "all_matching_rows (main_loop loads dir files s) =
     all_matching_rows s @ consolidated loads dir files"
  by (induction files arbitrary: s)
     (simp_all add: consolidated_def kept_def split: option.splits list.splits)

lemma main_loop_names_fixed:
  "fieldnames s = Some ns \<Longrightarrow> fieldnames (main_loop loads dir files s) = Some ns"
  by (induction files arbitrary: s) (simp_all split: option.splits list.splits)

lemma main_loop_skip:
  "\<forall>q \<in> set pre. kept loads dir q = [] \<Longrightarrow>
     main_loop loads dir (pre @ rest) s = main_loop loads dir rest s"
  by (induction pre arbitrary: s) (auto simp: kept_def split: option.splits list.splits)

lemma main_loop_names_iff:
  "(fieldnames s = None \<longleftrightarrow> all_matching_rows s = []) \<Longrightarrow>
     (fieldnames (main_loop loads dir files s) = None \<longleftrightarrow>
      all_matching_rows (main_loop loads dir files s) = [])"
  by (induction files arbitrary: s) (simp_all split: option.splits list.splits)



lemma header_fallback_found:
  "\<forall>q \<in> set pre. no_header dir q \<Longrightarrow> dir name = Some f \<Longrightarrow> fieldnames_of f = Some names \<Longrightarrow>
     header_fallback dir (pre @ name # post) = Some (map Some names @ [mpp])"
  by (induction pre) (auto simp: no_header_def split: option.splits)

lemma header_fallback_none:
  "\<forall>q \<in> set files. no_header dir q \<Longrightarrow> header_fallback dir files = None"
  by (induction files) (auto simp: no_header_def split: option.splits)


lemma writerows_Inl:
  "dict_to_list names r = Inl e \<Longrightarrow> writerows names (r # rows) = ([], Some e)"
  by simp

lemma writerows_Inr:
  "dict_to_list names r = Inr rc \<Longrightarrow>
     writerows names (r # rows) = (rc # fst (writerows names rows), snd (writerows names rows))"
  by (cases "writerows names rows") simp

lemma dict_to_list_Inr: "dict_to_list names r = Inr rc \<Longrightarrow> rc = rec_of names r"
  by (simp add: dict_to_list_def split: if_splits)


lemma writerows_written:
  "fst (writerows names rows) =
     map (rec_of names) (take (length (fst (writerows names rows))) rows)"
proof (induction rows)
  case Nil
  show ?case by simp
next
  case (Cons r rows)
  show ?case
  proof (cases "dict_to_list names r")
    case (Inl e)
    then show ?thesis by (simp only: writerows_Inl) simp
  next
    case (Inr rc)
    have "fst (writerows names (r # rows)) = rc # fst (writerows names rows)"
      using Inr by (simp only: writerows_Inr) simp
    moreover have "rc = rec_of names r" using Inr by (rule dict_to_list_Inr)
    ultimately show ?thesis using Cons.IH by simp
  qed
qed

lemma writerows_complete:
  "snd (writerows names rows) = None \<Longrightarrow> length (fst (writerows names rows)) = length rows"
proof (induction rows)
  case Nil
  show ?case by simp
next
  case (Cons r rows)
  show ?case
  proof (cases "dict_to_list names r")
    case (Inl e)
    with Cons.prems show ?thesis by (simp only: writerows_Inl) simp
  next
    case (Inr rc)
    with Cons.prems have "snd (writerows names rows) = None" by (simp only: writerows_Inr) simp
    with Cons.IH Inr show ?thesis by (simp only: writerows_Inr) simp
  qed
qed

lemma init_rows: "all_matching_rows (main_loop loads dir files init_state) = consolidated loads dir files"
  using main_loop_rows [of loads dir files init_state] by (simp add: init_state_def)

lemma first_names:
  assumes "\<forall>q \<in> set pre. kept loads dir q = []" "dir name = Some f"
    "matches_of loads (rows_of f) = (r0, p0) # others"
  shows "fieldnames (main_loop loads dir (pre @ name # post) init_state) = Some (map fst r0 @ [mpp])"
proof -
  have "main_loop loads dir (pre @ name # post) init_state =
        main_loop loads dir (name # post) init_state"
    using assms(1) by (rule main_loop_skip)
  also have "\<dots> = main_loop loads dir post
      \<lparr> all_matching_rows = map add_pattern ((r0, p0) # others),
        fieldnames = Some (map fst r0 @ [mpp]) \<rparr>"
    using assms(2,3) by (simp add: process_csv_file_fst init_state_def)
  finally show ?thesis by (simp add: main_loop_names_fixed)
qed

lemma written_rows:
  assumes "consolidated loads dir files \<noteq> []"
  shows "\<exists>names. fieldnames (main_loop loads dir files init_state) = Some names \<and>
     written (consolidate loads dir files) =
       Records (map key_cell names # fst (writerows names (consolidated loads dir files))) \<and>
     uncaught (consolidate loads dir files) = snd (writerows names (consolidated loads dir files))"
proof -
  let ?s = "main_loop loads dir files init_state"
  have rows: "all_matching_rows ?s = consolidated loads dir files" by (rule init_rows)
  have "fieldnames ?s = None \<longleftrightarrow> all_matching_rows ?s = []"
    by (rule main_loop_names_iff) (simp add: init_state_def)
  with rows assms obtain names where n: "fieldnames ?s = Some names" by auto
  show ?thesis
    using n rows assms
    by (cases "writerows names (consolidated loads dir files)")
       (simp add: consolidate_def write_output_def)
qed


section \<open>The consolidation: claims\<close>

text \<open>
  Claim C1, as stated, fails: a file whose reading ends with an exception after a matching
  row has been read keeps that row, and the row is written to the output. Here the first
  file yields one matching row and then raises a decoding error.
\<close>

theorem read_failure_counterexample:
  "failure_of file_cut = Some UnicodeDecodeError \<and>
   dir_cut ''execute_query_05.csv'' = Some file_cut \<and>
   process_csv_file ex_loads file_cut = ([(row_phone, ''phone'')], Some UnicodeDecodeError) \<and>
   written (main ex_loads dir_cut) =
     Records [[Text ''id'', Text ''additional_properties'', Text ''matched_phone_pattern''],
              [Text ''1'', Text json_phone, Text ''phone''],
              [Text ''7'', Text json_phone, Text ''phone'']]"
  by code_simp

text \<open>
  Claim C1, amended. When the reading of an input file ends with an exception, the rows
  after that point are not read, the matches found among the rows read before it are
  kept (they are the same as if the file had ended there), and the loop goes on with the
  next file.
\<close>

theorem read_failure_keeps_earlier_matches:
  assumes "dir name = Some f" and "failure_of f = Some e"
  shows "fst (process_csv_file loads f) = matches_of loads (rows_of f) \<and>
         snd (process_csv_file loads f) \<noteq> None \<and>
         all_matching_rows (main_loop loads dir (name # rest) init_state) =
           map add_pattern (matches_of loads (rows_of f)) @ consolidated loads dir rest"
proof -
  have "snd (process_csv_file loads f) \<noteq> None"
    using assms(2) by (simp add: process_csv_file_def read_loop_raised)
  moreover have "consolidated loads dir (name # rest) =
      map add_pattern (matches_of loads (rows_of f)) @ consolidated loads dir rest"
    using assms(1) by (simp add: consolidated_def kept_Some)
  ultimately show ?thesis by (simp add: process_csv_file_fst init_rows del: main_loop.simps)
qed

theorem read_failure_keeps_earlier_matches_witness:
  "dir_cut ''execute_query_05.csv'' = Some file_cut \<and>
   failure_of file_cut = Some UnicodeDecodeError \<and>
   matches_of ex_loads (rows_of file_cut) = [(row_phone, ''phone'')] \<and>
   snd (process_csv_file ex_loads file_cut) \<noteq> None \<and>
   all_matching_rows (main_loop ex_loads dir_cut csv_files init_state) =
     map add_pattern [(row_phone, ''phone'')] @ consolidated ex_loads dir_cut (tl csv_files)"
proof -
  have h1: "dir_cut ''execute_query_05.csv'' = Some file_cut" by code_simp
  have h2: "failure_of file_cut = Some UnicodeDecodeError" by code_simp
  have c: "csv_files = ''execute_query_05.csv'' # tl csv_files" by (simp add: csv_files_def)
  have m: "fst (process_csv_file ex_loads file_cut) = [(row_phone, ''phone'')]" by code_simp
  have "fst (process_csv_file ex_loads file_cut) = matches_of ex_loads (rows_of file_cut) \<and>
        snd (process_csv_file ex_loads file_cut) \<noteq> None \<and>
        all_matching_rows
          (main_loop ex_loads dir_cut (''execute_query_05.csv'' # tl csv_files) init_state) =
        map add_pattern (matches_of ex_loads (rows_of file_cut)) @
        consolidated ex_loads dir_cut (tl csv_files)"
    using h1 h2 by (rule read_failure_keeps_earlier_matches)
  with c m h1 h2 show ?thesis by simp
qed

text \<open>
  Claim C10. A row whose \<^verbatim>\<open>additional_properties\<close> text decodes to a value that is
  not an object raises \<^verbatim>\<open>AttributeError\<close>, which the row handler does not take. The
  rows after it are not processed; the matches of the rows before it are returned, are
  part of the consolidated rows, and are written when the writer completes.
\<close>

theorem non_object_json_aborts_file:
  assumes "row_get r ''additional_properties'' (Text ''{}'') = Text t"
    and "loads t = Inr v" and "\<forall>kvs. v \<noteq> JObj kvs"
    and "dir name = Some f" and "rows_of f = pre @ r # post"
  shows "process_row loads r = Inl AttributeError \<and>
         fst (process_csv_file loads f) = matches_of loads pre \<and>
         snd (process_csv_file loads f) \<noteq> None \<and>
         ((\<forall>x \<in> set pre. \<not> isl (process_row loads x)) \<longrightarrow>
            snd (process_csv_file loads f) = Some AttributeError) \<and>
         all_matching_rows (main_loop loads dir (before @ name # after) init_state) =
           consolidated loads dir before @ map add_pattern (matches_of loads pre) @
           consolidated loads dir after \<and>
         (\<forall>x \<in> set (matches_of loads pre).
            uncaught (consolidate loads dir (before @ name # after)) = None \<longrightarrow>
            (\<exists>names recs.
               written (consolidate loads dir (before @ name # after)) =
                 Records (map key_cell names # recs) \<and>
               rec_of names (add_pattern x) \<in> set recs))"
proof -
  let ?files = "before @ name # after"
  have r: "process_row loads r = Inl AttributeError"
    using assms(1-3) by (rule process_row_not_object)
  have m: "fst (process_csv_file loads f) = matches_of loads pre"
    using assms(5) r by (simp add: process_csv_file_fst matches_of_abort)
  have s: "snd (process_csv_file loads f) \<noteq> None \<and>
         ((\<forall>x \<in> set pre. \<not> isl (process_row loads x)) \<longrightarrow>
            snd (process_csv_file loads f) = Some AttributeError)"
    using read_loop_abort_snd [OF r, of pre post "failure_of f" "[]"] assms(5)
    by (simp add: process_csv_file_def)
  have k: "kept loads dir name = map add_pattern (matches_of loads pre)"
    using assms(4,5) r by (simp add: kept_Some matches_of_abort)
  have c: "consolidated loads dir ?files =
      consolidated loads dir before @ map add_pattern (matches_of loads pre) @
      consolidated loads dir after"
    using k by (simp add: consolidated_def)
  have w: "\<exists>names recs.
        written (consolidate loads dir ?files) = Records (map key_cell names # recs) \<and>
        rec_of names (add_pattern x) \<in> set recs"
    if x: "x \<in> set (matches_of loads pre)" and u: "uncaught (consolidate loads dir ?files) = None"
    for x
  proof -
    from x c have mem: "add_pattern x \<in> set (consolidated loads dir ?files)" by simp
    then have "consolidated loads dir ?files \<noteq> []" by auto
    from written_rows [OF this] obtain names where
        n: "written (consolidate loads dir ?files) =
            Records (map key_cell names # fst (writerows names (consolidated loads dir ?files)))"
           "uncaught (consolidate loads dir ?files) =
            snd (writerows names (consolidated loads dir ?files))"
      by blast
    from n(2) u have "length (fst (writerows names (consolidated loads dir ?files))) =
        length (consolidated loads dir ?files)"
      by (simp add: writerows_complete)
    with writerows_written [of names "consolidated loads dir ?files"]
    have "fst (writerows names (consolidated loads dir ?files)) =
        map (rec_of names) (consolidated loads dir ?files)" by simp
    with mem have "rec_of names (add_pattern x) \<in>
        set (fst (writerows names (consolidated loads dir ?files)))" by simp
    with n(1) show ?thesis by blast
  qed
  from r m s c w show ?thesis by (simp add: init_rows del: main_loop.simps)
qed

theorem non_object_json_aborts_file_witness:
  "row_get row_five ''additional_properties'' (Text ''{}'') = Text ''5'' \<and>
   ex_loads ''5'' = Inr (JInt 5) \<and>
   dir_five ''execute_query_06.csv'' = Some file_five \<and>
   rows_of file_five = [row_phone] @ row_five # [row_late] \<and>
   process_row ex_loads row_five = Inl AttributeError \<and>
   process_csv_file ex_loads file_five = ([(row_phone, ''phone'')], Some AttributeError) \<and>
   uncaught (main ex_loads dir_five) = None \<and>
   written (main ex_loads dir_five) =
     Records [[Text ''id'', Text ''additional_properties'', Text ''matched_phone_pattern''],
              [Text ''1'', Text json_phone, Text ''phone'']]"
proof -
  have h1: "row_get row_five ''additional_properties'' (Text ''{}'') = Text ''5''" by code_simp
  have h2: "ex_loads ''5'' = Inr (JInt 5)" by code_simp
  have h3: "\<forall>kvs. JInt 5 \<noteq> JObj kvs" by simp
  have h4: "dir_five ''execute_query_06.csv'' = Some file_five" by code_simp
  have h5: "rows_of file_five = [row_phone] @ row_five # [row_late]" by code_simp
  have "process_row ex_loads row_five = Inl AttributeError"
    using non_object_json_aborts_file
      [where r = row_five and t = "''5''" and loads = ex_loads and v = "JInt 5" and
        dir = dir_five and name = "''execute_query_06.csv''" and f = file_five and
        pre = "[row_phone]" and post = "[row_late]", OF h1 h2 h3 h4 h5]
    by blast
  moreover have "process_csv_file ex_loads file_five =
      ([(row_phone, ''phone'')], Some AttributeError)" by code_simp
  moreover have "uncaught (main ex_loads dir_five) = None" by code_simp
  moreover have "written (main ex_loads dir_five) =
     Records [[Text ''id'', Text ''additional_properties'', Text ''matched_phone_pattern''],
              [Text ''1'', Text json_phone, Text ''phone'']]" by code_simp
  ultimately show ?thesis using h1 h2 h4 h5 by simp
qed




text \<open>
  Claim C5. The schema is fixed by the first file that yields a matching row: it is the
  key sequence of that file's first matching row followed by
  \<^verbatim>\<open>matched_phone_pattern\<close>. Earlier files without matches do not contribute,
  and whatever the later files hold, the schema stays and is the header of the output.
\<close>

theorem schema_fixed_by_first_match:
  assumes "\<forall>q \<in> set pre. kept loads dir q = []" and "dir name = Some f"
    and "matches_of loads (rows_of f) = (r0, p0) # others"
  shows "fieldnames (main_loop loads dir (pre @ name # post) init_state) =
           Some (map fst r0 @ [mpp]) \<and>
         (\<exists>recs. written (consolidate loads dir (pre @ name # post)) =
            Records (map key_cell (map fst r0 @ [mpp]) # recs))"
proof -
  let ?files = "pre @ name # post"
  have n: "fieldnames (main_loop loads dir ?files init_state) = Some (map fst r0 @ [mpp])"
    using assms by (rule first_names)
  have "kept loads dir name \<noteq> []" using assms(2,3) by (simp add: kept_Some)
  then have "consolidated loads dir ?files \<noteq> []" by (simp add: consolidated_def)
  from written_rows [OF this] n show ?thesis by auto
qed

theorem schema_fixed_by_first_match_witness:
  "kept ex_loads dir_second ''execute_query_05.csv'' = [] \<and>
   dir_second ''execute_query_06.csv'' = Some file_wide \<and>
   matches_of ex_loads (rows_of file_wide) = (row_wide, ''phone'') # [] \<and>
   fieldnames (main_loop ex_loads dir_second csv_files init_state) =
     Some [Some ''id'', Some ''org_id'', Some ''additional_properties'',
           Some ''matched_phone_pattern''] \<and>
   written (main ex_loads dir_second) =
     Records [[Text ''id'', Text ''org_id'', Text ''additional_properties'',
               Text ''matched_phone_pattern''],
              [Text ''8'', Text ''1'', Text json_phone, Text ''phone'']]"
proof -
  have k: "kept ex_loads dir_second ''execute_query_05.csv'' = []" by code_simp
  then have h1: "\<forall>q \<in> set [''execute_query_05.csv'']. kept ex_loads dir_second q = []" by simp
  have h2: "dir_second ''execute_query_06.csv'' = Some file_wide" by code_simp
  have "fst (process_csv_file ex_loads file_wide) = [(row_wide, ''phone'')]" by code_simp
  then have h3: "matches_of ex_loads (rows_of file_wide) = (row_wide, ''phone'') # []"
    by (simp add: process_csv_file_fst)
  have c: "csv_files = [''execute_query_05.csv''] @ ''execute_query_06.csv'' #
      [''execute_query_07.csv'', ''query_results_05.csv'', ''query_results_06.csv'',
       ''query_results_07.csv'']"
    by (simp add: csv_files_def)
  have e: "map fst row_wide @ [mpp] =
      [Some ''id'', Some ''org_id'', Some ''additional_properties'', Some ''matched_phone_pattern'']"
    by code_simp
  have "fieldnames (main_loop ex_loads dir_second
          ([''execute_query_05.csv''] @ ''execute_query_06.csv'' #
            [''execute_query_07.csv'', ''query_results_05.csv'', ''query_results_06.csv'',
             ''query_results_07.csv'']) init_state) =
        Some (map fst row_wide @ [mpp])"
    using schema_fixed_by_first_match
      [where pre = "[''execute_query_05.csv'']" and loads = ex_loads and dir = dir_second and
        name = "''execute_query_06.csv''" and f = file_wide and ?r0.0 = row_wide and
        ?p0.0 = "''phone''" and others = "[]", OF h1 h2 h3]
    by blast
  then have f: "fieldnames (main_loop ex_loads dir_second csv_files init_state) =
     Some [Some ''id'', Some ''org_id'', Some ''additional_properties'',
           Some ''matched_phone_pattern'']"
    by (simp only: c e)
  have w: "written (main ex_loads dir_second) =
     Records [[Text ''id'', Text ''org_id'', Text ''additional_properties'',
               Text ''matched_phone_pattern''],
              [Text ''8'', Text ''1'', Text json_phone, Text ''phone'']]"
    by code_simp
  from k h2 h3 f w show ?thesis by blast
qed




text \<open>
  Claim C8, as stated, fails: when nothing matches and the first existing file is empty,
  the header of the output is not taken from that file but from the next existing file
  whose header can be read.
\<close>

theorem header_fallback_counterexample:
  "dir_empty_first ''execute_query_05.csv'' = Some file_empty \<and>
   fieldnames_of file_empty = None \<and>
   dir_empty_first ''execute_query_06.csv'' = Some file_plain \<and>
   fieldnames_of file_plain = Some [''id'', ''additional_properties''] \<and>
   consolidated ex_loads dir_empty_first csv_files = [] \<and>
   main ex_loads dir_empty_first =
     \<lparr> written = Records [[Text ''id'', Text ''additional_properties'',
                             Text ''matched_phone_pattern'']],
       uncaught = None \<rparr>"
  by code_simp

text \<open>
  Claim C8, amended. When no row matches in any file, the run ends normally with a
  header-only output: the header of the first existing file whose header can be read,
  followed by \<^verbatim>\<open>matched_phone_pattern\<close>; when no file gives a header (none
  exists, or each existing one is empty or unreadable), the fixed default header line.
\<close>

theorem header_only_output:
  assumes "\<forall>name \<in> set files. kept loads dir name = []"
  shows "uncaught (consolidate loads dir files) = None \<and>
     (\<forall>pre name post f names.
        files = pre @ name # post \<and> (\<forall>q \<in> set pre. no_header dir q) \<and>
        dir name = Some f \<and> fieldnames_of f = Some names \<longrightarrow>
        written (consolidate loads dir files) =
          Records [map Text names @ [Text ''matched_phone_pattern'']]) \<and>
     ((\<forall>q \<in> set files. no_header dir q) \<longrightarrow>
        written (consolidate loads dir files) = Raw default_header)"
proof -
  have "main_loop loads dir (files @ []) init_state = main_loop loads dir [] init_state"
    using assms by (rule main_loop_skip)
  then have s: "main_loop loads dir files init_state = init_state" by simp
  have o: "consolidate loads dir files =
      (case header_fallback dir files of
         None \<Rightarrow> \<lparr> written = Raw default_header, uncaught = None \<rparr>
       | Some ns \<Rightarrow>
           if ns \<noteq> [] then \<lparr> written = Records [map key_cell ns], uncaught = None \<rparr>
           else \<lparr> written = Raw default_header, uncaught = None \<rparr>)"
    unfolding consolidate_def s by (simp add: write_output_def init_state_def Let_def)
  have 1: "uncaught (consolidate loads dir files) = None"
    unfolding o by (simp split: option.splits)
  have 2: "written (consolidate loads dir files) =
          Records [map Text names @ [Text ''matched_phone_pattern'']]"
    if "files = pre @ name # post" "\<forall>q \<in> set pre. no_header dir q"
      "dir name = Some f" "fieldnames_of f = Some names"
    for pre name post f names
  proof -
    have "header_fallback dir files = Some (map Some names @ [mpp])"
      unfolding that(1) using that(2-4) by (rule header_fallback_found)
    then show ?thesis unfolding o by (simp add: mpp_def comp_def)
  qed
  have 3: "written (consolidate loads dir files) = Raw default_header"
    if "\<forall>q \<in> set files. no_header dir q"
    using header_fallback_none [OF that] unfolding o by simp
  from 1 2 3 show ?thesis by blast
qed

theorem header_only_output_witness:
  "consolidated ex_loads dir_empty_first csv_files = [] \<and>
   no_header dir_empty_first ''execute_query_05.csv'' \<and>
   dir_empty_first ''execute_query_06.csv'' = Some file_plain \<and>
   fieldnames_of file_plain = Some [''id'', ''additional_properties''] \<and>
   uncaught (main ex_loads dir_empty_first) = None \<and>
   written (main ex_loads dir_empty_first) =
     Records [map Text [''id'', ''additional_properties''] @ [Text ''matched_phone_pattern'']] \<and>
   written (main ex_loads (\<lambda>name. None)) = Raw default_header"
proof -
  have k: "kept ex_loads dir_empty_first ''execute_query_05.csv'' = [] \<and>
      kept ex_loads dir_empty_first ''execute_query_06.csv'' = [] \<and>
      kept ex_loads dir_empty_first ''execute_query_07.csv'' = [] \<and>
      kept ex_loads dir_empty_first ''query_results_05.csv'' = [] \<and>
      kept ex_loads dir_empty_first ''query_results_06.csv'' = [] \<and>
      kept ex_loads dir_empty_first ''query_results_07.csv'' = []"
    by code_simp
  then have h: "\<forall>name \<in> set csv_files. kept ex_loads dir_empty_first name = []"
    by (simp add: csv_files_def)
  then have z: "consolidated ex_loads dir_empty_first csv_files = []"
    by (simp add: consolidated_def)
  have c: "csv_files = [''execute_query_05.csv''] @ ''execute_query_06.csv'' #
      [''execute_query_07.csv'', ''query_results_05.csv'', ''query_results_06.csv'',
       ''query_results_07.csv'']"
    by (simp add: csv_files_def)
  have n: "no_header dir_empty_first ''execute_query_05.csv''" by code_simp
  then have n': "\<forall>q \<in> set [''execute_query_05.csv'']. no_header dir_empty_first q" by simp
  have d: "dir_empty_first ''execute_query_06.csv'' = Some file_plain" by code_simp
  have f: "fieldnames_of file_plain = Some [''id'', ''additional_properties'']" by code_simp
  note t = header_only_output [OF h]
  from t have u: "uncaught (main ex_loads dir_empty_first) = None" by (simp add: main_def)
  from t c n' d f have w: "written (main ex_loads dir_empty_first) =
     Records [map Text [''id'', ''additional_properties''] @ [Text ''matched_phone_pattern'']]"
    unfolding main_def by blast
  have h0: "\<forall>name \<in> set csv_files. kept ex_loads (\<lambda>name. None) name = []"
    by (simp add: kept_def)
  have n0: "\<forall>q \<in> set csv_files. no_header (\<lambda>name. None) q" by (simp add: no_header_def)
  from header_only_output [OF h0] n0
  have r: "written (main ex_loads (\<lambda>name. None)) = Raw default_header"
    unfolding main_def by blast
  from z n d f u w r show ?thesis by blast
qed



end
